theory Spec2Isabelle
  imports Main "HOL-Library.Sublist"
begin

section \<open>Canonical element model\<close>

text \<open>
  The canonical UI element of \<^verbatim>\<open>types.ts\<close>, as the adapters build it and as the filter,
  the stability detector and the orchestrator read it. Numbers are mathematical integers
  (JavaScript numbers holding integers below \<open>2^53\<close>); strings are lists of code units, here
  the units below 256. Optional fields are \<open>option\<close>s, \<open>None\<close> standing for \<^verbatim>\<open>undefined\<close>.
\<close>

datatype Platform = android | ios

text \<open>
  The code throws plain \<^verbatim>\<open>Error\<close> values; they are told apart by where they are thrown:
  \<open>ExecutionError command diagnostic\<close> by \<^verbatim>\<open>exec\<close> when the process fails or times out,
  \<open>NoDeviceError\<close> by \<^verbatim>\<open>getFirstDeviceId\<close>, \<open>TreeParseError\<close> by the Android
  \<^verbatim>\<open>getUiTree\<close> after its last strategy, \<open>DependencyMissingError\<close> by the iOS
  \<^verbatim>\<open>getUiTree\<close> without its inspection bridge.
\<close>

datatype error =
    ExecutionError string string
  | NoDeviceError
  | TreeParseError
  | DependencyMissingError

record Bounds =
  b_x :: int
  b_y :: int
  b_width :: int
  b_height :: int

record UiElement =
  index :: nat
  type :: string
  "text" :: string
  bounds :: Bounds
  center_x :: int
  center_y :: int
  clickable :: bool
  resource_id :: "string option"
  enabled :: "bool option"
  focused :: "bool option"

text \<open>The nullish-coalescing operator \<^verbatim>\<open>a ?? d\<close>.\<close>

definition coalesce :: "'a option \<Rightarrow> 'a \<Rightarrow> 'a" where
  "coalesce a d = (case a of None \<Rightarrow> d | Some v \<Rightarrow> v)"

section \<open>String primitives of the host language\<close>

text \<open>
  \<^verbatim>\<open>String.prototype.trim\<close> and the regular-expression class \<^verbatim>\<open>\s\<close> share one
  set of characters: white space and line terminators. Below 256 these are TAB, LF, VT, FF,
  CR, SPACE and NBSP.
\<close>

definition js_space :: "char \<Rightarrow> bool" where
  "js_space c = (c = CHR 0x09 \<or> c = CHR 0x0A \<or> c = CHR 0x0B \<or> c = CHR 0x0C
     \<or> c = CHR 0x0D \<or> c = CHR 0x20 \<or> c = CHR 0xA0)"

definition trim :: "string \<Rightarrow> string" where
  "trim s = rev (dropWhile js_space (rev (dropWhile js_space s)))"

text \<open>Number-to-string conversion of an integer, as a template literal performs it.\<close>

definition digit_char :: "nat \<Rightarrow> char" where
  "digit_char d = ''0123456789'' ! d"

fun show_nat :: "nat \<Rightarrow> string" where
  "show_nat n =
     (if n < 10 then [digit_char n] else show_nat (n div 10) @ [digit_char (n mod 10)])"

declare show_nat.simps [simp del]

definition show_int :: "int \<Rightarrow> string" where
  "show_int i = (if i < 0 then CHR ''-'' # show_nat (nat (- i)) else show_nat (nat i))"

definition show_bool :: "bool \<Rightarrow> string" where
  "show_bool b = (if b then ''true'' else ''false'')"

text \<open>\<^verbatim>\<open>Array.prototype.join\<close> on an array of strings.\<close>

fun join :: "string \<Rightarrow> string list \<Rightarrow> string" where
  "join sep [] = []"
| "join sep [s] = s"
| "join sep (s # t # ts) = s @ sep @ join sep (t # ts)"

text \<open>The double quote, which cannot be written inside a string literal here.\<close>

definition dquote :: char where
  "dquote = CHR 0x22"

text \<open>
  \<open>strip_prefix p s\<close> is the rest of \<open>s\<close> after its prefix \<open>p\<close> (\<^verbatim>\<open>startsWith\<close> when it is not
  \<open>None\<close>); \<open>find_after p s\<close> is the rest of \<open>s\<close> after the leftmost occurrence of \<open>p\<close>.
\<close>

fun strip_prefix :: "string \<Rightarrow> string \<Rightarrow> string option" where
  "strip_prefix [] s = Some s"
| "strip_prefix (p # ps) [] = None"
| "strip_prefix (p # ps) (c # cs) = (if p = c then strip_prefix ps cs else None)"

fun find_after :: "string \<Rightarrow> string \<Rightarrow> string option" where
  "find_after p [] = strip_prefix p []"
| "find_after p (c # cs) =
     (case strip_prefix p (c # cs) of Some r \<Rightarrow> Some r | None \<Rightarrow> find_after p cs)"

text \<open>\<^verbatim>\<open>String.prototype.split\<close> with a one-character separator, and with \<^verbatim>\<open>/\s+/\<close>.\<close>

fun split_on :: "char \<Rightarrow> string \<Rightarrow> string list" where
  "split_on sep [] = [[]]"
| "split_on sep (c # cs) =
     (if c = sep then [] # split_on sep cs
      else (case split_on sep cs of [] \<Rightarrow> [[c]] | p # ps \<Rightarrow> (c # p) # ps))"


text \<open>
  Decimal digits (the class \<^verbatim>\<open>\d\<close>), and \<^verbatim>\<open>parseInt(ds, 10)\<close> on a string of digits.
\<close>

definition is_digit :: "char \<Rightarrow> bool" where
  "is_digit c = (c \<in> set ''0123456789'')"

definition digit_value :: "char \<Rightarrow> int" where
  "digit_value c = int (length (takeWhile (\<lambda>d. d \<noteq> c) ''0123456789''))"

definition parseInt :: "string \<Rightarrow> int" where
  "parseInt ds = foldl (\<lambda>acc c. 10 * acc + digit_value c) 0 ds"

text \<open>\<^verbatim>\<open>Math.round(n / 2)\<close> for an integer \<open>n\<close>: halves are rounded towards plus infinity.\<close>

definition round_half :: "int \<Rightarrow> int" where
  "round_half n = (n + 1) div 2"



section \<open>Element filter (\<^verbatim>\<open>utils/ui-filter.ts\<close>)\<close>

definition filterUiElements :: "UiElement list \<Rightarrow> bool \<Rightarrow> UiElement list" where
  "filterUiElements elements includeAll =
     (if includeAll then elements
      else filter (\<lambda>el. trim (text el) \<noteq> [] \<or> clickable el) elements)"

section \<open>Stability signature (\<^verbatim>\<open>hashUiTree\<close>)\<close>

text \<open>The callback of the \<^verbatim>\<open>filter\<close> call: false for an element of the status-bar band.\<close>

definition outside_status_band :: "UiElement \<Rightarrow> bool" where
  "outside_status_band el = (if b_y (bounds el) < 60 \<and> b_height (bounds el) < 60 then False else True)"

text \<open>The callback of the \<^verbatim>\<open>map\<close> call: the template literal of one element.\<close>

definition element_line :: "UiElement \<Rightarrow> string" where
  "element_line el =
     type el @ ''|'' @ text el @ ''|''
       @ show_int (b_x (bounds el)) @ '','' @ show_int (b_y (bounds el)) @ '',''
       @ show_int (b_width (bounds el)) @ '','' @ show_int (b_height (bounds el))
       @ ''|'' @ show_bool (clickable el)"

definition hashUiTree :: "UiElement list \<Rightarrow> string" where
  "hashUiTree elements = join [CHR 0x0A] (map element_line (filter outside_status_band elements))"

section \<open>Android adapter (\<^verbatim>\<open>platforms/android.ts\<close>)\<close>

subsection \<open>Parsing the accessibility dump\<close>

text \<open>
  \<^verbatim>\<open>extractAttr\<close> matches \<^verbatim>\<open>name="([^"]*)"\<close> anywhere in the attribute text: the value runs
  from the leftmost \<^verbatim>\<open>name="\<close> to the next double quote.
\<close>

definition extractAttr :: "string \<Rightarrow> string \<Rightarrow> string option" where
  "extractAttr attrs name =
     (case find_after (name @ [CHR ''='', dquote]) attrs of
        None \<Rightarrow> None
      | Some rest \<Rightarrow>
          if dquote \<in> set rest then Some (takeWhile (\<lambda>c. c \<noteq> dquote) rest) else None)"

text \<open>
  The bounds pattern \<^verbatim>\<open>\[(\d+),(\d+)\]\[(\d+),(\d+)\]\<close>. \<open>digits_then stop s\<close> reads one or more
  digits and the character \<open>stop\<close>; \<open>match_bounds_here\<close> matches the pattern at the start of
  a string and \<open>match_bounds\<close> at its leftmost position, as \<^verbatim>\<open>String.prototype.match\<close> does.
  The result is the four groups.
\<close>

definition digits_then :: "char \<Rightarrow> string \<Rightarrow> (string \<times> string) option" where
  "digits_then stop s =
     (let ds = takeWhile is_digit s in
      if ds = [] then None
      else (case dropWhile is_digit s of
              [] \<Rightarrow> None
            | c # rest \<Rightarrow> if c = stop then Some (ds, rest) else None))"

definition match_bounds_here :: "string \<Rightarrow> (string \<times> string \<times> string \<times> string) option" where
  "match_bounds_here s =
     (case s of
        [] \<Rightarrow> None
      | c # s1 \<Rightarrow>
          if c \<noteq> CHR ''['' then None
          else (case digits_then CHR '','' s1 of
                  None \<Rightarrow> None
                | Some (d1, s2) \<Rightarrow>
                    (case digits_then CHR '']'' s2 of
                       None \<Rightarrow> None
                     | Some (d2, s3) \<Rightarrow>
                         (case strip_prefix ''['' s3 of
                            None \<Rightarrow> None
                          | Some s4 \<Rightarrow>
                              (case digits_then CHR '','' s4 of
                                 None \<Rightarrow> None
                               | Some (d3, s5) \<Rightarrow>
                                   (case digits_then CHR '']'' s5 of
                                      None \<Rightarrow> None
                                    | Some (d4, s6) \<Rightarrow> Some (d1, d2, d3, d4)))))))"

fun match_bounds :: "string \<Rightarrow> (string \<times> string \<times> string \<times> string) option" where
  "match_bounds [] = None"
| "match_bounds (c # cs) =
     (case match_bounds_here (c # cs) of Some m \<Rightarrow> Some m | None \<Rightarrow> match_bounds cs)"

text \<open>The replacement of \<^verbatim>\<open>/^[^:]+:id\//\<close> by the empty string.\<close>

definition strip_package :: "string \<Rightarrow> string" where
  "strip_package raw =
     (if takeWhile (\<lambda>c. c \<noteq> CHR '':'') raw = [] then raw
      else (case strip_prefix '':id/'' (dropWhile (\<lambda>c. c \<noteq> CHR '':'') raw) of
              None \<Rightarrow> raw
            | Some rest \<Rightarrow> rest))"

text \<open>
  The body of the \<^verbatim>\<open>while\<close> loop of \<^verbatim>\<open>parseUiXml\<close> for one match, \<open>attrs\<close> being the
  first group and \<open>idx\<close> the counter \<^verbatim>\<open>index\<close>. \<open>None\<close> is the \<^verbatim>\<open>continue\<close>.
\<close>

definition parse_node :: "nat \<Rightarrow> string \<Rightarrow> UiElement option" where
  "parse_node idx attrs =
     (let className = (case extractAttr attrs ''class'' of
                         None \<Rightarrow> ''Unknown''
                       | Some c \<Rightarrow> last (split_on CHR ''.'' c));
          txt = coalesce (extractAttr attrs ''text'') [];
          contentDesc = coalesce (extractAttr attrs ''content-desc'') [];
          isClickable = (extractAttr attrs ''clickable'' = Some ''true'');
          boundsStr = coalesce (extractAttr attrs ''bounds'') [];
          rawResourceId = coalesce (extractAttr attrs ''resource-id'') [];
          isEnabled = (extractAttr attrs ''enabled'' = Some ''true'');
          isFocused = (extractAttr attrs ''focused'' = Some ''true'')
      in case match_bounds boundsStr of
           None \<Rightarrow> None
         | Some (d1, d2, d3, d4) \<Rightarrow>
             (let x1 = parseInt d1; y1 = parseInt d2; x2 = parseInt d3; y2 = parseInt d4;
                  displayText = (if txt \<noteq> [] then txt else contentDesc);
                  resourceId = (if rawResourceId \<noteq> [] then Some (strip_package rawResourceId)
                                else None)
              in Some \<lparr>index = idx, type = className, text = displayText,
                       bounds = \<lparr>b_x = x1, b_y = y1, b_width = x2 - x1, b_height = y2 - y1\<rparr>,
                       center_x = round_half (x1 + x2), center_y = round_half (y1 + y2),
                       clickable = isClickable, resource_id = resourceId,
                       enabled = Some isEnabled, focused = Some isFocused\<rparr>))"


text \<open>
  One match of \<^verbatim>\<open>/<node\s+([^>]+?)\/?>/\<close> at the start of a string: the first group and the text
  after the match. The white space is greedy and gives back its last character when nothing
  else stands before the \<^verbatim>\<open>>\<close>; the group is lazy and leaves a final slash to \<^verbatim>\<open>\/?\<close>
  unless the slash is all it has.
\<close>

definition match_node_here :: "string \<Rightarrow> (string \<times> string) option" where
  "match_node_here s =
     (case strip_prefix ''<node'' s of
        None \<Rightarrow> None
      | Some r \<Rightarrow>
          (let ws = takeWhile js_space r;
               body = takeWhile (\<lambda>c. c \<noteq> CHR ''>'') (dropWhile js_space r)
           in if ws = [] then None
              else (case dropWhile (\<lambda>c. c \<noteq> CHR ''>'') (dropWhile js_space r) of
                      [] \<Rightarrow> None
                    | gt # rest \<Rightarrow>
                        if body = [] then
                          (if 2 \<le> length ws then Some ([last ws], rest) else None)
                        else if 2 \<le> length body \<and> last body = CHR ''/''
                          then Some (butlast body, rest)
                        else Some (body, rest))))"

lemma strip_prefix_length: "strip_prefix p s = Some r \<Longrightarrow> length r \<le> length s"
  by (induction p s rule: strip_prefix.induct) (auto split: if_splits)

lemma match_node_here_shorter:
  assumes "match_node_here s = Some (attrs, rest)"
  shows "length rest < length s"
proof -
  from assms obtain r where r: "strip_prefix ''<node'' s = Some r"
    by (auto simp: match_node_here_def split: option.splits)
  have "length (dropWhile (\<lambda>c. c \<noteq> CHR ''>'') (dropWhile js_space r)) \<le> length r"
    by (meson length_dropWhile_le order_trans)
  moreover from assms r obtain gt where
    "dropWhile (\<lambda>c. c \<noteq> CHR ''>'') (dropWhile js_space r) = gt # rest"
    by (auto simp: match_node_here_def Let_def split: list.splits if_splits)
  ultimately have "length rest < length r" by simp
  with strip_prefix_length [OF r] show ?thesis by simp
qed

text \<open>The successive matches of the global pattern, as repeated \<^verbatim>\<open>exec\<close> calls find them.\<close>

function node_matches :: "string \<Rightarrow> string list" where
  "node_matches [] = []"
| "node_matches (c # cs) =
     (case match_node_here (c # cs) of
        Some (attrs, rest) \<Rightarrow> attrs # node_matches rest
      | None \<Rightarrow> node_matches cs)"
  by pat_completeness auto
termination
  by (relation "measure length") (auto dest: match_node_here_shorter)

text \<open>The loop over the matches: a node without parsable bounds does not advance the counter.\<close>

fun collect :: "nat \<Rightarrow> string list \<Rightarrow> UiElement list" where
  "collect idx [] = []"
| "collect idx (attrs # rest) =
     (case parse_node idx attrs of
        None \<Rightarrow> collect idx rest
      | Some el \<Rightarrow> el # collect (Suc idx) rest)"

definition parseUiXml :: "string \<Rightarrow> UiElement list" where
  "parseUiXml xml = collect 0 (node_matches xml)"


subsection \<open>The device bridge\<close>






subsection \<open>Device enumeration\<close>






subsection \<open>Retrieving the tree\<close>








section \<open>iOS adapter (\<^verbatim>\<open>platforms/ios.ts\<close>): parsing the inspection records\<close>

text \<open>
  \<^verbatim>\<open>parseIdbDescribeAll\<close> reads one JSON record per line. The parser of the host language is
  a parameter \<open>JSON_parse\<close>: \<open>None\<close> when \<^verbatim>\<open>JSON.parse(line)\<close> throws or yields \<^verbatim>\<open>null\<close> (the
  property read that follows then throws inside the same \<^verbatim>\<open>try\<close>), otherwise the properties
  the adapter reads, each \<open>None\<close> when it is missing or \<^verbatim>\<open>null\<close>. Properties are taken to hold
  values of the type the adapter expects (strings, integers, booleans).
\<close>

record idb_frame =
  frame_x :: "int option"
  frame_y :: "int option"
  frame_width :: "int option"
  frame_height :: "int option"

record idb_entry =
  entry_frame :: "idb_frame option"
  entry_type :: "string option"
  entry_AXType :: "string option"
  entry_title :: "string option"
  entry_AXLabel :: "string option"
  entry_label :: "string option"
  entry_enabled :: "bool option"
  entry_AXIdentifier :: "string option"
  entry_accessibilityIdentifier :: "string option"
  entry_identifier :: "string option"

text \<open>The chain \<^verbatim>\<open>a ?? b\<close> while the result may still be absent.\<close>

definition or_else :: "'a option \<Rightarrow> 'a option \<Rightarrow> 'a option" where
  "or_else a b = (case a of None \<Rightarrow> b | Some v \<Rightarrow> Some v)"

text \<open>The element pushed for one parsed record, \<open>idx\<close> being the counter \<^verbatim>\<open>index\<close>.\<close>

definition idb_element :: "nat \<Rightarrow> idb_entry \<Rightarrow> UiElement" where
  "idb_element idx entry =
     (let frame = coalesce (entry_frame entry)
                    \<lparr>frame_x = None, frame_y = None, frame_width = None, frame_height = None\<rparr>;
          x = coalesce (frame_x frame) 0;
          y = coalesce (frame_y frame) 0;
          w = coalesce (frame_width frame) 0;
          h = coalesce (frame_height frame) 0;
          resourceId = or_else (entry_AXIdentifier entry)
                         (or_else (entry_accessibilityIdentifier entry) (entry_identifier entry))
      in \<lparr>index = idx,
          type = coalesce (or_else (entry_type entry) (entry_AXType entry)) ''Unknown'',
          text = coalesce (or_else (entry_title entry)
                             (or_else (entry_AXLabel entry) (entry_label entry))) [],
          bounds = \<lparr>b_x = x, b_y = y, b_width = w, b_height = h\<rparr>,
          center_x = round_half (2 * x + w),
          center_y = round_half (2 * y + h),
          clickable = coalesce (entry_enabled entry) True,
          resource_id = resourceId,
          enabled = Some (coalesce (entry_enabled entry) True),
          focused = None\<rparr>)"

text \<open>The loop over the lines: a line that does not parse is skipped and keeps the counter.\<close>

fun idb_collect :: "(string \<Rightarrow> idb_entry option) \<Rightarrow> nat \<Rightarrow> string list \<Rightarrow> UiElement list" where
  "idb_collect JSON_parse idx [] = []"
| "idb_collect JSON_parse idx (line # rest) =
     (case JSON_parse line of
        None \<Rightarrow> idb_collect JSON_parse idx rest
      | Some entry \<Rightarrow> idb_element idx entry # idb_collect JSON_parse (Suc idx) rest)"

definition parseIdbDescribeAll :: "(string \<Rightarrow> idb_entry option) \<Rightarrow> string \<Rightarrow> UiElement list" where
  "parseIdbDescribeAll JSON_parse output =
     idb_collect JSON_parse 0 (split_on (CHR 0x0A) (trim output))"

section \<open>The device as seen by the observation engine\<close>

text \<open>
  The observation engine reaches the device only through the platform adapters'
  \<^verbatim>\<open>getUiTree\<close> and \<^verbatim>\<open>screenshot\<close> and through timers. A \<open>world\<close> holds the wall clock
  in milliseconds, what the adapters will answer to the n-th call of each kind (with the time
  the call takes), how late the n-th timer fires, and how many calls and timers have been
  issued so far.
\<close>

record capture =
  latency :: nat
  outcome :: "error + UiElement list"

record Screenshot =
  base64 :: string
  width :: int
  height :: int

record exposure =
  shot_latency :: nat
  shot_outcome :: "error + Screenshot"

record world =
  clock :: int
  calls :: nat
  shots :: nat
  timers :: nat
  adapter_getUiTree :: "Platform \<Rightarrow> string option \<Rightarrow> nat \<Rightarrow> capture"
  adapter_getScreenshot :: "Platform \<Rightarrow> string option \<Rightarrow> nat \<Rightarrow> exposure"
  timer_lag :: "nat \<Rightarrow> nat"

definition Date_now :: "world \<Rightarrow> int" where
  "Date_now w = clock w"

text \<open>
  \<^verbatim>\<open>delay(ms)\<close> is a promise resolved by \<^verbatim>\<open>setTimeout\<close>. The runtime replaces a
  duration below 1 or above \<open>2^31 - 1\<close> by 1 millisecond; a timer never fires early.
\<close>

definition timer_ms :: "int \<Rightarrow> nat" where
  "timer_ms ms = (if ms < 1 \<or> 2147483647 < ms then 1 else nat ms)"

definition delay :: "int \<Rightarrow> world \<Rightarrow> world" where
  "delay ms w =
     w\<lparr>clock := clock w + int (timer_ms ms) + int (timer_lag w (timers w)),
       timers := Suc (timers w)\<rparr>"

text \<open>The dispatching \<^verbatim>\<open>getUiTree(platform, deviceId)\<close> and \<^verbatim>\<open>getScreenshot\<close> of observe.ts.\<close>

definition getUiTree ::
  "Platform \<Rightarrow> string option \<Rightarrow> world \<Rightarrow> (error + UiElement list) \<times> world" where
  "getUiTree platform deviceId w =
     (let c = adapter_getUiTree w platform deviceId (calls w)
      in (outcome c, w\<lparr>clock := clock w + int (latency c), calls := Suc (calls w)\<rparr>))"

definition getScreenshot ::
  "Platform \<Rightarrow> string option \<Rightarrow> world \<Rightarrow> (error + Screenshot) \<times> world" where
  "getScreenshot platform deviceId w =
     (let s = adapter_getScreenshot w platform deviceId (shots w)
      in (shot_outcome s, w\<lparr>clock := clock w + int (shot_latency s), shots := Suc (shots w)\<rparr>))"

text \<open>What the adapter answers to call number \<open>n\<close>, and the tree of a successful answer.\<close>

definition capture_at :: "Platform \<Rightarrow> string option \<Rightarrow> world \<Rightarrow> nat \<Rightarrow> error + UiElement list" where
  "capture_at platform deviceId w n = outcome (adapter_getUiTree w platform deviceId n)"

definition tree_at :: "Platform \<Rightarrow> string option \<Rightarrow> world \<Rightarrow> nat \<Rightarrow> UiElement list" where
  "tree_at platform deviceId w n =
     (case capture_at platform deviceId w n of Inl e \<Rightarrow> [] | Inr tree \<Rightarrow> tree)"

section \<open>Stability detector (\<^verbatim>\<open>waitForStableUiTree\<close>)\<close>

text \<open>
  The detector leaves by one of three ways: the \<^verbatim>\<open>return tree\<close> inside the loop
  (\<open>Converged\<close>), the \<^verbatim>\<open>return previousTree\<close> after it (\<open>TimedOut\<close>), or an exception of
  \<^verbatim>\<open>getUiTree\<close>, which nothing catches (\<open>Raised\<close>). \<open>returned\<close> forgets which return
  statement ran and gives what the caller receives.
\<close>

datatype detector_exit =
    Converged "UiElement list"
  | TimedOut "UiElement list"
  | Raised error

fun returned :: "detector_exit \<Rightarrow> error + UiElement list" where
  "returned (Converged tree) = Inr tree"
| "returned (TimedOut tree) = Inr tree"
| "returned (Raised e) = Inl e"

text \<open>
  The \<^verbatim>\<open>while\<close> loop, with its variables \<^verbatim>\<open>previousHash\<close> and \<^verbatim>\<open>previousTree\<close> as
  arguments. Every pass sleeps at least one millisecond, so the loop leaves at the deadline
  at the latest.
\<close>

function stable_loop ::
  "Platform \<Rightarrow> string option \<Rightarrow> int \<Rightarrow> int \<Rightarrow> int \<Rightarrow> string \<Rightarrow> UiElement list \<Rightarrow> world
     \<Rightarrow> detector_exit \<times> world" where
  "stable_loop platform deviceId pollIntervalMs timeoutMs start previousHash previousTree w =
     (if Date_now w - start < timeoutMs then
        (case getUiTree platform deviceId w of
           (Inl e, w1) \<Rightarrow> (Raised e, w1)
         | (Inr tree, w1) \<Rightarrow>
             (let hash = hashUiTree tree in
              if hash = previousHash \<and> previousHash \<noteq> [] then (Converged tree, w1)
              else stable_loop platform deviceId pollIntervalMs timeoutMs start hash tree
                     (delay pollIntervalMs w1)))
      else (TimedOut previousTree, w))"
  by pat_completeness auto
termination
  apply (relation "measure (\<lambda>(platform, deviceId, pollIntervalMs, timeoutMs, start,
            previousHash, previousTree, w). nat (start + timeoutMs - clock w))")
   apply simp
  apply (auto simp: getUiTree_def delay_def Date_now_def Let_def timer_ms_def)
  done

declare stable_loop.simps [simp del]

definition waitForStableUiTree ::
  "Platform \<Rightarrow> string option \<Rightarrow> int option \<Rightarrow> int option \<Rightarrow> world \<Rightarrow> detector_exit \<times> world" where
  "waitForStableUiTree platform deviceId pollIntervalMs timeoutMs w =
     (let start = Date_now w
      in stable_loop platform deviceId (coalesce pollIntervalMs 500) (coalesce timeoutMs 10000)
           start [] [] w)"

section \<open>Observation orchestrator (\<^verbatim>\<open>performObservation\<close>)\<close>

text \<open>
  The \<^verbatim>\<open>Promise.all\<close> of the two captures. Both calls are issued at the same instant; the
  pair is ready when the slower one is, and a rejection is delivered when the earlier
  rejecting call ends.
\<close>

definition capture_in_parallel ::
  "bool \<Rightarrow> bool \<Rightarrow> Platform \<Rightarrow> string option \<Rightarrow> world
     \<Rightarrow> (error + UiElement list option \<times> Screenshot option) \<times> world" where
  "capture_in_parallel wantTree wantScreenshot platform deviceId w =
     (if wantTree \<and> wantScreenshot then
        (case getUiTree platform deviceId w of (rt, wt) \<Rightarrow>
           (case getScreenshot platform deviceId (wt\<lparr>clock := clock w\<rparr>) of (rs, ws) \<Rightarrow>
              (case (rt, rs) of
                 (Inr tree, Inr shot) \<Rightarrow>
                   (Inr (Some tree, Some shot), ws\<lparr>clock := max (clock wt) (clock ws)\<rparr>)
               | (Inl e, Inr shot) \<Rightarrow> (Inl e, ws\<lparr>clock := clock wt\<rparr>)
               | (Inr tree, Inl e) \<Rightarrow> (Inl e, ws)
               | (Inl e1, Inl e2) \<Rightarrow>
                   (if clock wt \<le> clock ws then (Inl e1, ws\<lparr>clock := clock wt\<rparr>)
                    else (Inl e2, ws)))))
      else if wantTree then
        (case getUiTree platform deviceId w of
           (Inl e, w1) \<Rightarrow> (Inl e, w1)
         | (Inr tree, w1) \<Rightarrow> (Inr (Some tree, None), w1))
      else if wantScreenshot then
        (case getScreenshot platform deviceId w of
           (Inl e, w1) \<Rightarrow> (Inl e, w1)
         | (Inr shot, w1) \<Rightarrow> (Inr (None, Some shot), w1))
      else (Inr (None, None), w))"

datatype ObserveMode = mode_none | mode_ui_tree | mode_screenshot | mode_both

record ObserveOptions =
  mode :: ObserveMode
  platform :: Platform
  deviceId :: "string option"
  delayMs :: "int option"
  stabilize :: "bool option"
  stabilizeTimeoutMs :: "int option"
  stabilizePollMs :: "int option"
  filterUi :: "bool option"

record ObservationResult =
  uiTree :: "UiElement list option"
  screenshot :: "Screenshot option"

text \<open>The wait before the capture: stabilise, or sleep a positive \<^verbatim>\<open>delayMs\<close>, or nothing.\<close>

definition settle :: "ObserveOptions \<Rightarrow> world \<Rightarrow> error option \<times> world" where
  "settle options w =
     (if stabilize options = Some True then
        (case waitForStableUiTree (platform options) (deviceId options)
                (Some (coalesce (stabilizePollMs options) 500))
                (Some (coalesce (stabilizeTimeoutMs options) 10000)) w of
           (Raised e, w1) \<Rightarrow> (Some e, w1)
         | (Converged tree, w1) \<Rightarrow> (None, w1)
         | (TimedOut tree, w1) \<Rightarrow> (None, w1))
      else
        (case delayMs options of
           None \<Rightarrow> (None, w)
         | Some ms \<Rightarrow> if ms \<noteq> 0 \<and> 0 < ms then (None, delay ms w) else (None, w)))"

definition performObservation ::
  "ObserveOptions \<Rightarrow> world \<Rightarrow> (error + ObservationResult option) \<times> world" where
  "performObservation options w =
     (if mode options = mode_none then (Inr None, w)
      else
        (case settle options w of
           (Some e, w1) \<Rightarrow> (Inl e, w1)
         | (None, w1) \<Rightarrow>
             (let wantTree = (mode options = mode_ui_tree \<or> mode options = mode_both);
                  wantScreenshot = (mode options = mode_screenshot \<or> mode options = mode_both)
              in case capture_in_parallel wantTree wantScreenshot
                        (platform options) (deviceId options) w1 of
                   (Inl e, w2) \<Rightarrow> (Inl e, w2)
                 | (Inr (tree, shot), w2) \<Rightarrow>
                     (Inr (Some \<lparr>uiTree =
                                   (case tree of
                                      None \<Rightarrow> None
                                    | Some t \<Rightarrow>
                                        Some (filterUiElements t
                                                (\<not> coalesce (filterUi options) True))),
                                 screenshot = shot\<rparr>), w2))))"

section \<open>Sample elements and devices\<close>

text \<open>Concrete elements, option sets and devices on which the theorems below are instantiated.\<close>

definition plain_view :: UiElement where
  "plain_view = \<lparr>index = 0, type = ''View'', text = '''', bounds = \<lparr>b_x = 0, b_y = 0, b_width = 100, b_height = 50\<rparr>,
     center_x = 50, center_y = 25, clickable = False, resource_id = None, enabled = None, focused = None\<rparr>"

definition spinner :: UiElement where
  "spinner = \<lparr>index = 0, type = ''ProgressBar'', text = '''',
     bounds = \<lparr>b_x = 490, b_y = 900, b_width = 100, b_height = 100\<rparr>,
     center_x = 540, center_y = 950, clickable = False,
     resource_id = None, enabled = Some True, focused = Some False\<rparr>"

definition button :: UiElement where
  "button = \<lparr>index = 0, type = ''Button'', text = ''OK'',
     bounds = \<lparr>b_x = 10, b_y = 200, b_width = 100, b_height = 50\<rparr>,
     center_x = 60, center_y = 225, clickable = True,
     resource_id = Some ''ok'', enabled = Some True, focused = Some False\<rparr>"

definition status_clock :: UiElement where
  "status_clock = \<lparr>index = 0, type = ''TextView'', text = ''12:00'',
     bounds = \<lparr>b_x = 0, b_y = 0, b_width = 120, b_height = 48\<rparr>,
     center_x = 60, center_y = 24, clickable = False,
     resource_id = Some ''clock'', enabled = Some True, focused = Some False\<rparr>"

definition heading :: "string \<Rightarrow> UiElement" where
  "heading s = \<lparr>index = 0, type = ''TextView'', text = s,
     bounds = \<lparr>b_x = 0, b_y = 100, b_width = 540, b_height = 50\<rparr>,
     center_x = 270, center_y = 125, clickable = False,
     resource_id = Some ''title'', enabled = Some True, focused = Some False\<rparr>"

definition container :: UiElement where
  "container = \<lparr>index = 1, type = ''FrameLayout'', text = [],
     bounds = \<lparr>b_x = 0, b_y = 0, b_width = 1080, b_height = 1920\<rparr>,
     center_x = 540, center_y = 960, clickable = False,
     resource_id = None, enabled = Some True, focused = Some False\<rparr>"

text \<open>A device that answers the n-th tree request with the n-th entry of a script
  (the last entry again once the script is over), each call taking the given time.\<close>

definition replay :: "nat \<Rightarrow> (error + UiElement list) list \<Rightarrow> world" where
  "replay ms script =
     \<lparr>clock = 0, calls = 0, shots = 0, timers = 0,
      adapter_getUiTree = (\<lambda>p d n. \<lparr>latency = ms,
         outcome = (if n < length script then script ! n
                    else if script = [] then Inl TreeParseError else last script)\<rparr>),
      adapter_getScreenshot = (\<lambda>p d n. \<lparr>shot_latency = ms,
         shot_outcome = Inr \<lparr>base64 = ''AAAA'', width = 540, height = 960\<rparr>\<rparr>),
      timer_lag = (\<lambda>n. 0)\<rparr>"

definition loading_then_ready :: world where
  "loading_then_ready = replay 150 [Inr [status_clock, spinner], Inr [status_clock, button],
                                     Inr [status_clock\<lparr>text := ''12:01''\<rparr>, button]]"

definition blank_then_loaded :: world where
  "blank_then_loaded = replay 100 [Inr [spinner], Inr [], Inr [], Inr [button]]"

definition ever_changing :: world where
  "ever_changing = replay 100 [Inr [spinner], Inr [button], Inr [spinner], Inr [button]]"

definition settles_then_changes :: world where
  "settles_then_changes = replay 100 [Inr [heading ''Loading''], Inr [heading ''Loading''],
                                      Inr [heading ''Done'', container]]"

definition after_tap :: ObserveOptions where
  "after_tap = \<lparr>mode = mode_ui_tree, platform = android, deviceId = None, delayMs = Some 500,
     stabilize = Some True, stabilizeTimeoutMs = None, stabilizePollMs = None,
     filterUi = None\<rparr>"

text \<open>
  An accessibility dump of three nodes, the second one off screen with a negative coordinate,
  and the two elements it parses to; command scripts for the bridge.
\<close>

definition attr :: "string \<Rightarrow> string \<Rightarrow> string" where
  "attr name v = name @ ''='' @ [dquote] @ v @ [dquote]"

definition node_attrs :: "string \<Rightarrow> string \<Rightarrow> string \<Rightarrow> string \<Rightarrow> string \<Rightarrow> string \<Rightarrow> string" where
  "node_attrs txt resourceId cls desc clk bnds =
     attr ''index'' ''0'' @ '' '' @ attr ''text'' txt @ '' ''
       @ attr ''resource-id'' resourceId @ '' '' @ attr ''class'' cls @ '' ''
       @ attr ''content-desc'' desc @ '' '' @ attr ''clickable'' clk @ '' ''
       @ attr ''enabled'' ''true'' @ '' '' @ attr ''focused'' ''false'' @ '' ''
       @ attr ''bounds'' bnds"

definition settings_attrs :: string where
  "settings_attrs = node_attrs ''Settings'' ''com.android.settings:id/title''
                      ''android.widget.TextView'' [] ''true'' ''[0,100][540,150]''"

definition offscreen_attrs :: string where
  "offscreen_attrs = node_attrs ''Hidden'' [] ''android.view.View'' [] ''false''
                       ''[-40,100][0,150]''"

definition search_attrs :: string where
  "search_attrs = node_attrs [] [] ''android.view.View'' ''Search'' ''false''
                    ''[600,100][700,200]''"

definition settings_dump :: string where
  "settings_dump =
     ''<?xml version='' @ [dquote] @ ''1.0'' @ [dquote] @ '' encoding='' @ [dquote] @ ''UTF-8''
       @ [dquote] @ ''?>'' @ [CHR 0x0A]
       @ ''<hierarchy '' @ attr ''rotation'' ''0'' @ ''>'' @ [CHR 0x0A]
       @ ''  <node '' @ settings_attrs @ '' />'' @ [CHR 0x0A]
       @ ''  <node '' @ offscreen_attrs @ '' />'' @ [CHR 0x0A]
       @ ''  <node '' @ search_attrs @ '' />'' @ [CHR 0x0A]
       @ ''</hierarchy>''"

definition settings_element :: UiElement where
  "settings_element = \<lparr>index = 0, type = ''TextView'', text = ''Settings'',
     bounds = \<lparr>b_x = 0, b_y = 100, b_width = 540, b_height = 50\<rparr>,
     center_x = 270, center_y = 125, clickable = True,
     resource_id = Some ''title'', enabled = Some True, focused = Some False\<rparr>"

definition search_element :: UiElement where
  "search_element = \<lparr>index = 1, type = ''View'', text = ''Search'',
     bounds = \<lparr>b_x = 600, b_y = 100, b_width = 100, b_height = 100\<rparr>,
     center_x = 650, center_y = 150, clickable = False,
     resource_id = None, enabled = Some True, focused = Some False\<rparr>"




text \<open>Two inspection records of the iOS bridge, one with an empty title, around a line of noise.\<close>

definition jstr :: "string \<Rightarrow> string" where
  "jstr s = [dquote] @ s @ [dquote]"

definition idb_line :: "string \<Rightarrow> string \<Rightarrow> string" where
  "idb_line title label =
     ''{'' @ jstr ''type'' @ '':'' @ jstr ''Button'' @ '','' @ jstr ''title'' @ '':'' @ title
       @ '','' @ jstr ''AXLabel'' @ '':'' @ label @ '','' @ jstr ''enabled'' @ '':true,''
       @ jstr ''frame'' @ '':{'' @ jstr ''x'' @ '':20,'' @ jstr ''y'' @ '':400,''
       @ jstr ''width'' @ '':200,'' @ jstr ''height'' @ '':44}}''"

definition idb_button :: "string option \<Rightarrow> string option \<Rightarrow> idb_entry" where
  "idb_button title label =
     \<lparr>entry_frame = Some \<lparr>frame_x = Some 20, frame_y = Some 400, frame_width = Some 200,
                            frame_height = Some 44\<rparr>,
      entry_type = Some ''Button'', entry_AXType = None, entry_title = title,
      entry_AXLabel = label, entry_label = None, entry_enabled = Some True,
      entry_AXIdentifier = None, entry_accessibilityIdentifier = None,
      entry_identifier = None\<rparr>"

text \<open>What \<^verbatim>\<open>JSON.parse\<close> and the property reads give on the two records used below.\<close>

definition read_records :: "string \<Rightarrow> idb_entry option" where
  "read_records line =
     (if line = idb_line ''null'' (jstr ''Back'') then Some (idb_button None (Some ''Back''))
      else if line = idb_line (jstr []) (jstr ''Submit'')
        then Some (idb_button (Some []) (Some ''Submit''))
      else None)"

definition idb_output :: string where
  "idb_output = idb_line ''null'' (jstr ''Back'') @ [CHR 0x0A] @ ''Warning: slow response''
                  @ [CHR 0x0A] @ idb_line (jstr []) (jstr ''Submit'') @ [CHR 0x0A]"

section \<open>Element filter: properties\<close>

text \<open>
  Claim C5. With \<open>includeAll\<close> true the filter returns its input unchanged. With
  \<open>includeAll\<close> false the result is a subsequence of the input (relative order is kept),
  every element of the result has non-empty trimmed text or is clickable, every element left
  out has empty trimmed text and is not clickable, and every kept element occurs as often as
  in the input.
\<close>

theorem filterUiElements_keeps_relevant:
  "filterUiElements elements True = elements
   \<and> subseq (filterUiElements elements False) elements
   \<and> (\<forall>el \<in> set (filterUiElements elements False). trim (text el) \<noteq> [] \<or> clickable el)
   \<and> (\<forall>el \<in> set elements. el \<notin> set (filterUiElements elements False)
          \<longrightarrow> trim (text el) = [] \<and> \<not> clickable el)
   \<and> (\<forall>el. count_list (filterUiElements elements False) el =
          (if trim (text el) \<noteq> [] \<or> clickable el then count_list elements el else 0))"
proof -
  have cnt: "count_list (filter P xs) el = (if P el then count_list xs el else 0)" for P and xs :: "UiElement list" and el
    by (induction xs) auto
  show ?thesis
    unfolding filterUiElements_def by (simp add: cnt)
qed

theorem filterUiElements_keeps_relevant_witness:
  "filterUiElements [plain_view, plain_view\<lparr>text := ''Hello''\<rparr>, plain_view\<lparr>clickable := True\<rparr>] False
     = [plain_view\<lparr>text := ''Hello''\<rparr>, plain_view\<lparr>clickable := True\<rparr>]
   \<and> filterUiElements [plain_view, plain_view\<lparr>text := ''Hello''\<rparr>, plain_view\<lparr>clickable := True\<rparr>] True
     = [plain_view, plain_view\<lparr>text := ''Hello''\<rparr>, plain_view\<lparr>clickable := True\<rparr>]
   \<and> plain_view \<in> set [plain_view, plain_view\<lparr>text := ''Hello''\<rparr>, plain_view\<lparr>clickable := True\<rparr>]
   \<and> plain_view \<notin> set (filterUiElements [plain_view, plain_view\<lparr>text := ''Hello''\<rparr>, plain_view\<lparr>clickable := True\<rparr>] False)
   \<and> trim (text plain_view) = [] \<and> \<not> clickable plain_view"
  using filterUiElements_keeps_relevant [of "[plain_view, plain_view\<lparr>text := ''Hello''\<rparr>, plain_view\<lparr>clickable := True\<rparr>]"]
  by (simp add: filterUiElements_def plain_view_def trim_def js_space_def)

section \<open>Stability signature: properties\<close>

text \<open>
  Claim C4. Two element sequences that are equal once the elements with \<open>y < 60\<close> and
  \<open>height < 60\<close> are removed have the same signature; so have two sequences whose remaining
  elements agree, in order, on type, text, bounds and clickable flag (the traversal index
  shifts when a status-bar element comes or goes, and is not part of the signature). The
  signature is the lines of the remaining elements, in order, joined by a line feed; a line
  is the type, the text, the four bounds numbers separated by commas, and the clickable flag,
  separated by vertical bars.
\<close>

theorem hashUiTree_status_band:
  "(filter (\<lambda>el. \<not> (b_y (bounds el) < 60 \<and> b_height (bounds el) < 60)) xs
      = filter (\<lambda>el. \<not> (b_y (bounds el) < 60 \<and> b_height (bounds el) < 60)) ys
     \<longrightarrow> hashUiTree xs = hashUiTree ys)
   \<and> (map (\<lambda>el. (type el, text el, bounds el, clickable el))
          (filter (\<lambda>el. \<not> (b_y (bounds el) < 60 \<and> b_height (bounds el) < 60)) xs)
      = map (\<lambda>el. (type el, text el, bounds el, clickable el))
          (filter (\<lambda>el. \<not> (b_y (bounds el) < 60 \<and> b_height (bounds el) < 60)) ys)
     \<longrightarrow> hashUiTree xs = hashUiTree ys)
   \<and> hashUiTree xs =
         join [CHR 0x0A]
           (map (\<lambda>el. type el @ ''|'' @ text el @ ''|''
                   @ show_int (b_x (bounds el)) @ '','' @ show_int (b_y (bounds el)) @ '',''
                   @ show_int (b_width (bounds el)) @ '','' @ show_int (b_height (bounds el))
                   @ ''|'' @ show_bool (clickable el))
              (filter (\<lambda>el. \<not> (b_y (bounds el) < 60 \<and> b_height (bounds el) < 60)) xs))"
proof -
  define line where "line = (\<lambda>(ty :: string, tx :: string, b :: Bounds, c :: bool).
      ty @ ''|'' @ tx @ ''|'' @ show_int (b_x b) @ '','' @ show_int (b_y b) @ '',''
        @ show_int (b_width b) @ '','' @ show_int (b_height b) @ ''|'' @ show_bool c)"
  have st: "outside_status_band = (\<lambda>el. \<not> (b_y (bounds el) < 60 \<and> b_height (bounds el) < 60))"
    by (rule ext) (simp add: outside_status_band_def)
  have ln: "element_line = (\<lambda>el. type el @ ''|'' @ text el @ ''|''
                     @ show_int (b_x (bounds el)) @ '','' @ show_int (b_y (bounds el)) @ '',''
                     @ show_int (b_width (bounds el)) @ '','' @ show_int (b_height (bounds el))
                     @ ''|'' @ show_bool (clickable el))"
    by (rule ext) (simp add: element_line_def)
  have key: "map element_line zs
               = map line (map (\<lambda>el. (type el, text el, bounds el, clickable el)) zs)" for zs
    by (simp add: ln line_def)
  have h: "hashUiTree zs = join [CHR 0x0A] (map line
              (map (\<lambda>el. (type el, text el, bounds el, clickable el))
                 (filter (\<lambda>el. \<not> (b_y (bounds el) < 60 \<and> b_height (bounds el) < 60)) zs)))" for zs
    unfolding hashUiTree_def st key ..
  have a: "filter (\<lambda>el. \<not> (b_y (bounds el) < 60 \<and> b_height (bounds el) < 60)) xs
      = filter (\<lambda>el. \<not> (b_y (bounds el) < 60 \<and> b_height (bounds el) < 60)) ys
     \<longrightarrow> hashUiTree xs = hashUiTree ys"
    by (simp add: hashUiTree_def st)
  have b: "map (\<lambda>el. (type el, text el, bounds el, clickable el))
          (filter (\<lambda>el. \<not> (b_y (bounds el) < 60 \<and> b_height (bounds el) < 60)) xs)
      = map (\<lambda>el. (type el, text el, bounds el, clickable el))
          (filter (\<lambda>el. \<not> (b_y (bounds el) < 60 \<and> b_height (bounds el) < 60)) ys)
     \<longrightarrow> hashUiTree xs = hashUiTree ys"
    by (simp only: h [of xs] h [of ys]) simp
  have c: "hashUiTree xs =
         join [CHR 0x0A]
           (map (\<lambda>el. type el @ ''|'' @ text el @ ''|''
                   @ show_int (b_x (bounds el)) @ '','' @ show_int (b_y (bounds el)) @ '',''
                   @ show_int (b_width (bounds el)) @ '','' @ show_int (b_height (bounds el))
                   @ ''|'' @ show_bool (clickable el))
              (filter (\<lambda>el. \<not> (b_y (bounds el) < 60 \<and> b_height (bounds el) < 60)) xs))"
    unfolding hashUiTree_def st ln ..
  from a b c show ?thesis by (intro conjI)
qed

theorem hashUiTree_status_band_witness:
  "filter (\<lambda>el. \<not> (b_y (bounds el) < 60 \<and> b_height (bounds el) < 60)) [status_clock, button]
     = filter (\<lambda>el. \<not> (b_y (bounds el) < 60 \<and> b_height (bounds el) < 60))
         [button, status_clock\<lparr>text := ''12:01''\<rparr>]
   \<and> hashUiTree [status_clock, button] = hashUiTree [button, status_clock\<lparr>text := ''12:01''\<rparr>]
   \<and> map (\<lambda>el. (type el, text el, bounds el, clickable el))
          (filter (\<lambda>el. \<not> (b_y (bounds el) < 60 \<and> b_height (bounds el) < 60))
             [status_clock, button\<lparr>index := 1\<rparr>])
      = map (\<lambda>el. (type el, text el, bounds el, clickable el))
          (filter (\<lambda>el. \<not> (b_y (bounds el) < 60 \<and> b_height (bounds el) < 60)) [button])
   \<and> hashUiTree [status_clock, button\<lparr>index := 1\<rparr>] = hashUiTree [button]
   \<and> hashUiTree [status_clock, button] = ''Button|OK|10,200,100,50|true''
   \<and> hashUiTree [button, spinner]
       = ''Button|OK|10,200,100,50|true'' @ [CHR 0x0A] @ ''ProgressBar||490,900,100,100|false''"
proof -
  have same: "filter (\<lambda>el. \<not> (b_y (bounds el) < 60 \<and> b_height (bounds el) < 60)) [status_clock, button]
     = filter (\<lambda>el. \<not> (b_y (bounds el) < 60 \<and> b_height (bounds el) < 60))
         [button, status_clock\<lparr>text := ''12:01''\<rparr>]"
    by (simp add: status_clock_def button_def)
  have keys: "map (\<lambda>el. (type el, text el, bounds el, clickable el))
          (filter (\<lambda>el. \<not> (b_y (bounds el) < 60 \<and> b_height (bounds el) < 60))
             [status_clock, button\<lparr>index := 1\<rparr>])
      = map (\<lambda>el. (type el, text el, bounds el, clickable el))
          (filter (\<lambda>el. \<not> (b_y (bounds el) < 60 \<and> b_height (bounds el) < 60)) [button])"
    by (simp add: status_clock_def button_def)
  have vals: "hashUiTree [status_clock, button] = ''Button|OK|10,200,100,50|true''"
    "hashUiTree [button, spinner]
       = ''Button|OK|10,200,100,50|true'' @ [CHR 0x0A] @ ''ProgressBar||490,900,100,100|false''"
    by code_simp+
  from hashUiTree_status_band [of "[status_clock, button]" "[button, status_clock\<lparr>text := ''12:01''\<rparr>]"]
    same
  have one: "hashUiTree [status_clock, button] = hashUiTree [button, status_clock\<lparr>text := ''12:01''\<rparr>]"
    by blast
  from hashUiTree_status_band [of "[status_clock, button\<lparr>index := 1\<rparr>]" "[button]"] keys
  have two: "hashUiTree [status_clock, button\<lparr>index := 1\<rparr>] = hashUiTree [button]"
    by blast
  from same one keys two vals show ?thesis by (intro conjI)
qed

section \<open>Stability detector: properties\<close>

lemma getUiTree_step:
  assumes "getUiTree p d w = (r, w1)"
  shows "capture_at p d w (calls w) = r" and "calls w1 = Suc (calls w)"
    and "adapter_getUiTree w1 = adapter_getUiTree w" and "clock w \<le> clock w1"
    and "timers w1 = timers w"
  using assms by (auto simp: getUiTree_def capture_at_def Let_def)

lemma delay_frame:
  "calls (delay ms w) = calls w" "adapter_getUiTree (delay ms w) = adapter_getUiTree w"
  "clock w < clock (delay ms w)" "timers (delay ms w) = Suc (timers w)"
  by (auto simp: delay_def timer_ms_def)

lemma stable_loop_deadline:
  "\<not> Date_now w - start < timeout \<Longrightarrow>
     stable_loop p d poll timeout start ph pt w = (TimedOut pt, w)"
  by (simp add: stable_loop.simps)

lemma stable_loop_raise:
  "Date_now w - start < timeout \<Longrightarrow> getUiTree p d w = (Inl e, w1) \<Longrightarrow>
     stable_loop p d poll timeout start ph pt w = (Raised e, w1)"
  by (simp add: stable_loop.simps)

lemma stable_loop_converge:
  "Date_now w - start < timeout \<Longrightarrow> getUiTree p d w = (Inr tree, w1) \<Longrightarrow>
   hashUiTree tree = ph \<Longrightarrow> ph \<noteq> [] \<Longrightarrow>
     stable_loop p d poll timeout start ph pt w = (Converged tree, w1)"
  by (simp add: stable_loop.simps)

lemma stable_loop_continue:
  "Date_now w - start < timeout \<Longrightarrow> getUiTree p d w = (Inr tree, w1) \<Longrightarrow>
   \<not> (hashUiTree tree = ph \<and> ph \<noteq> []) \<Longrightarrow>
     stable_loop p d poll timeout start ph pt w =
     stable_loop p d poll timeout start (hashUiTree tree) tree (delay poll w1)"
  by (auto simp: stable_loop.simps [of p d poll timeout start ph pt w] Let_def)

lemma stable_loop_frame:
  "stable_loop p d poll timeout start ph pt w = (r, w') \<Longrightarrow>
     adapter_getUiTree w' = adapter_getUiTree w \<and> calls w \<le> calls w'"
proof (induction p d poll timeout start ph pt w rule: stable_loop.induct)
  case (1 p d poll timeout start ph pt w)
  show ?case
  proof (cases "Date_now w - start < timeout")
    case False
    with "1.prems" show ?thesis by (simp add: stable_loop_deadline)
  next
    case True
    obtain c w1 where g: "getUiTree p d w = (c, w1)" by (cases "getUiTree p d w")
    note st = getUiTree_step(2,3) [OF g]
    show ?thesis
    proof (cases c)
      case (Inl e)
      with "1.prems" True g st show ?thesis by (simp add: stable_loop_raise)
    next
      case (Inr tree)
      show ?thesis
      proof (cases "hashUiTree tree = ph \<and> ph \<noteq> []")
        case conv: True
        with "1.prems" True g Inr st show ?thesis by (simp add: stable_loop_converge)
      next
        case cont: False
        from "1.prems" True g Inr cont
        have rec: "stable_loop p d poll timeout start (hashUiTree tree) tree (delay poll w1) = (r, w')"
          by (simp add: stable_loop_continue)
        from "1.IH" [OF True g [symmetric] Inr refl cont rec] st
        show ?thesis by (simp add: delay_frame)
      qed
    qed
  qed
qed

lemma stable_loop_exit:
  assumes "stable_loop p d poll timeout start ph pt w = (r, w')"
  shows "case r of
           Converged t \<Rightarrow> calls w < calls w' \<and> capture_at p d w (calls w' - 1) = Inr t
              \<and> hashUiTree t \<noteq> []
              \<and> hashUiTree t = (if calls w' = Suc (calls w) then ph
                                 else hashUiTree (tree_at p d w (calls w' - 2)))
         | TimedOut t \<Rightarrow> \<not> Date_now w' - start < timeout
              \<and> (if calls w' = calls w then t = pt
                  else capture_at p d w (calls w' - 1) = Inr t)
         | Raised e \<Rightarrow> calls w < calls w' \<and> capture_at p d w (calls w' - 1) = Inl e"
  using assms
proof (induction p d poll timeout start ph pt w rule: stable_loop.induct)
  case (1 p d poll timeout start ph pt w)
  show ?case
  proof (cases "Date_now w - start < timeout")
    case False
    with "1.prems" show ?thesis by (auto simp: stable_loop_deadline)
  next
    case True
    obtain c w1 where g: "getUiTree p d w = (c, w1)" by (cases "getUiTree p d w")
    note st = getUiTree_step(1,2,3) [OF g]
    show ?thesis
    proof (cases c)
      case (Inl e)
      with "1.prems" True g st show ?thesis by (auto simp: stable_loop_raise)
    next
      case (Inr tree)
      show ?thesis
      proof (cases "hashUiTree tree = ph \<and> ph \<noteq> []")
        case conv: True
        with "1.prems" True g Inr st show ?thesis by (auto simp: stable_loop_converge)
      next
        case cont: False
        from "1.prems" True g Inr cont
        have rec: "stable_loop p d poll timeout start (hashUiTree tree) tree (delay poll w1) = (r, w')"
          by (simp add: stable_loop_continue)
        have fr: "adapter_getUiTree w' = adapter_getUiTree w" "Suc (calls w) \<le> calls w'"
          using stable_loop_frame [OF rec] st by (simp_all add: delay_frame)
        have ca: "capture_at p d (delay poll w1) n = capture_at p d w n" for n
          using st by (simp add: capture_at_def delay_frame)
        have ta: "tree_at p d (delay poll w1) n = tree_at p d w n" for n
          using ca by (simp add: tree_at_def)
        have first: "tree_at p d w (calls w) = tree"
          using st Inr by (simp add: tree_at_def)
        note ih = "1.IH" [OF True g [symmetric] Inr refl cont rec]
        show ?thesis
        proof (cases r)
          case (Converged t)
          show ?thesis
          proof (cases "calls w' = Suc (Suc (calls w))")
            case two: True
            then have "calls w' - 2 = calls w" by simp
            with ih Converged two st first show ?thesis
              by (auto simp: delay_frame ca)
          next
            case more: False
            with ih Converged st show ?thesis
              by (auto simp: delay_frame ca ta)
          qed
        next
          case (TimedOut t)
          with ih st fr Inr show ?thesis by (auto simp: delay_frame ca split: if_splits)
        next
          case (Raised e)
          with ih st fr show ?thesis by (auto simp: delay_frame ca)
        qed
      qed
    qed
  qed
qed

text \<open>
  Claim C1 (as amended). When the first three answers of the device are trees, the first
  two signatures differ, the second and third are equal and not empty, and the third pass of
  the loop starts before the deadline, the detector converges at the third capture: it
  returns the third tree through the \<open>return\<close> inside the loop, after exactly three captures
  and two sleeps.
\<close>

theorem converges_at_third_capture:
  fixes pollIntervalMs timeoutMs :: "int option"
  defines "poll \<equiv> coalesce pollIntervalMs 500"
      and "timeout \<equiv> coalesce timeoutMs 10000"
  assumes c1: "capture_at p d w (calls w) = Inr t1"
      and c2: "capture_at p d w (calls w + 1) = Inr t2"
      and c3: "capture_at p d w (calls w + 2) = Inr t3"
      and differ: "hashUiTree t1 \<noteq> hashUiTree t2"
      and equal: "hashUiTree t2 = hashUiTree t3"
      and nonempty: "hashUiTree t2 \<noteq> []"
      and observed:
        "int (latency (adapter_getUiTree w p d (calls w)))
           + int (timer_ms poll) + int (timer_lag w (timers w))
           + int (latency (adapter_getUiTree w p d (calls w + 1)))
           + int (timer_ms poll) + int (timer_lag w (timers w + 1)) < timeout"
  shows "fst (waitForStableUiTree p d pollIntervalMs timeoutMs w) = Converged t3
       \<and> calls (snd (waitForStableUiTree p d pollIntervalMs timeoutMs w)) = calls w + 3
       \<and> timers (snd (waitForStableUiTree p d pollIntervalMs timeoutMs w)) = timers w + 2"
proof -
  define start where "start = Date_now w"
  obtain w1 where g1: "getUiTree p d w = (Inr t1, w1)"
    using c1 by (simp add: getUiTree_def capture_at_def Let_def)
  define s1 where "s1 = delay poll w1"
  obtain w2 where g2: "getUiTree p d s1 = (Inr t2, w2)"
    using c2 g1 by (auto simp: s1_def getUiTree_def capture_at_def Let_def delay_def)
  define s2 where "s2 = delay poll w2"
  obtain w3 where g3: "getUiTree p d s2 = (Inr t3, w3)"
    using c3 g1 g2 by (auto simp: s1_def s2_def getUiTree_def capture_at_def Let_def delay_def)
  have clocks:
    "clock s1 = clock w + int (latency (adapter_getUiTree w p d (calls w)))
           + int (timer_ms poll) + int (timer_lag w (timers w))"
    "clock s2 = clock s1 + int (latency (adapter_getUiTree w p d (calls w + 1)))
           + int (timer_ms poll) + int (timer_lag w (timers w + 1))"
    using g1 g2 by (auto simp: s1_def s2_def getUiTree_def Let_def delay_def)
  have counts: "calls w3 = calls w + 3" "timers w3 = timers w + 2"
    using g1 g2 g3 by (auto simp: s1_def s2_def getUiTree_def Let_def delay_def)
  have t0: "Date_now w - start < timeout" and t1: "Date_now s1 - start < timeout"
    and t2: "Date_now s2 - start < timeout"
    using observed clocks by (simp_all add: start_def Date_now_def)
  have "stable_loop p d poll timeout start [] [] w
          = stable_loop p d poll timeout start (hashUiTree t1) t1 s1"
    unfolding s1_def by (rule stable_loop_continue [OF t0 g1]) simp
  also have "\<dots> = stable_loop p d poll timeout start (hashUiTree t2) t2 s2"
    unfolding s2_def by (rule stable_loop_continue [OF t1 g2]) (use differ in auto)
  also have "\<dots> = (Converged t3, w3)"
    by (rule stable_loop_converge [OF t2 g3]) (use equal nonempty in auto)
  finally have "waitForStableUiTree p d pollIntervalMs timeoutMs w = (Converged t3, w3)"
    by (simp add: waitForStableUiTree_def start_def poll_def timeout_def)
  with counts show ?thesis by simp
qed

theorem converges_at_third_capture_witness:
  "fst (waitForStableUiTree android None None None loading_then_ready)
     = Converged [status_clock\<lparr>text := ''12:01''\<rparr>, button]
   \<and> calls (snd (waitForStableUiTree android None None None loading_then_ready)) = 3
   \<and> hashUiTree [status_clock, spinner] \<noteq> hashUiTree [status_clock, button]
   \<and> hashUiTree [status_clock, button] = hashUiTree [status_clock\<lparr>text := ''12:01''\<rparr>, button]
   \<and> hashUiTree [status_clock, button] \<noteq> []"
proof -
  have sigs: "hashUiTree [status_clock, spinner] = ''ProgressBar||490,900,100,100|false''"
       "hashUiTree [status_clock, button] = ''Button|OK|10,200,100,50|true''"
       "hashUiTree [status_clock\<lparr>text := ''12:01''\<rparr>, button] = ''Button|OK|10,200,100,50|true''"
    by code_simp+
  have "fst (waitForStableUiTree android None None None loading_then_ready)
          = Converged [status_clock\<lparr>text := ''12:01''\<rparr>, button]
      \<and> calls (snd (waitForStableUiTree android None None None loading_then_ready))
          = calls loading_then_ready + 3
      \<and> timers (snd (waitForStableUiTree android None None None loading_then_ready))
          = timers loading_then_ready + 2"
    by (rule converges_at_third_capture
               [where ?t1.0 = "[status_clock, spinner]" and ?t2.0 = "[status_clock, button]"])
       (simp_all add: sigs, simp_all add: loading_then_ready_def replay_def capture_at_def
          coalesce_def timer_ms_def)
  then show ?thesis
    by (simp add: sigs) (simp add: loading_then_ready_def replay_def)
qed

text \<open>
  Claim C1 as stated fails when the equal signatures are empty: the guard
  \<^verbatim>\<open>previousHash !== ""\<close> keeps the loop running. Here the second and third captures are
  empty trees; the detector takes a fourth capture and leaves at the deadline with it.
\<close>

theorem converges_at_third_capture_counterexample:
  "capture_at ios None blank_then_loaded 0 = Inr [spinner]
   \<and> capture_at ios None blank_then_loaded 1 = Inr []
   \<and> capture_at ios None blank_then_loaded 2 = Inr []
   \<and> hashUiTree [spinner] \<noteq> hashUiTree []
   \<and> hashUiTree [] = hashUiTree []
   \<and> hashUiTree [] = []
   \<and> fst (waitForStableUiTree ios None (Some 100) (Some 700) blank_then_loaded) \<noteq> Converged []
   \<and> fst (waitForStableUiTree ios None (Some 100) (Some 700) blank_then_loaded) = TimedOut [button]
   \<and> calls (snd (waitForStableUiTree ios None (Some 100) (Some 700) blank_then_loaded)) = 4"
  by code_simp




text \<open>
  Claim C3. In a run in which no capture failed and no two consecutive captures had equal
  signatures, the detector leaves through the \<open>return\<close> after the loop, once the deadline
  (\<open>timeoutMs\<close> after its own start) has passed; it raises nothing and returns the most recent
  capture's tree (the initial empty tree when no capture was taken at all).
\<close>

theorem soft_timeout_returns_last_capture:
  assumes run: "waitForStableUiTree p d pollIntervalMs timeoutMs w = (r, w')"
      and succeeded: "\<forall>n. calls w \<le> n \<and> n < calls w' \<longrightarrow> (\<exists>tree. capture_at p d w n = Inr tree)"
      and changing: "\<forall>n. calls w \<le> n \<and> Suc n < calls w' \<longrightarrow>
                       hashUiTree (tree_at p d w n) \<noteq> hashUiTree (tree_at p d w (Suc n))"
  shows "r = TimedOut (if calls w' = calls w then [] else tree_at p d w (calls w' - 1))
       \<and> returned r = Inr (if calls w' = calls w then [] else tree_at p d w (calls w' - 1))
       \<and> \<not> Date_now w' - Date_now w < coalesce timeoutMs 10000"
proof -
  from run have loop: "stable_loop p d (coalesce pollIntervalMs 500) (coalesce timeoutMs 10000)
                          (Date_now w) [] [] w = (r, w')"
    by (simp add: waitForStableUiTree_def)
  note ex = stable_loop_exit [OF loop]
  show ?thesis
  proof (cases r)
    case (TimedOut t)
    with ex show ?thesis by (auto simp: tree_at_def)
  next
    case (Raised e)
    with ex have "calls w < calls w'" and failed: "capture_at p d w (calls w' - 1) = Inl e"
      by simp_all
    then have "calls w \<le> calls w' - 1 \<and> calls w' - 1 < calls w'" by arith
    with succeeded failed show ?thesis by fastforce
  next
    case (Converged t)
    with ex have a: "calls w < calls w'" "capture_at p d w (calls w' - 1) = Inr t"
      and two: "calls w' \<noteq> Suc (calls w)"
      and same: "hashUiTree t = hashUiTree (tree_at p d w (calls w' - 2))"
      by (auto split: if_splits)
    from a two have idx: "Suc (calls w' - 2) = calls w' - 1" "calls w \<le> calls w' - 2"
      "Suc (calls w' - 2) < calls w'" by arith+
    from a(2) idx(1) have "tree_at p d w (Suc (calls w' - 2)) = t"
      by (simp add: tree_at_def)
    with same changing idx show ?thesis by fastforce
  qed
qed

theorem soft_timeout_returns_last_capture_witness:
  "calls (snd (waitForStableUiTree ios (Some ''sim-1'') (Some 500) (Some 1000) ever_changing)) = 2
   \<and> capture_at ios (Some ''sim-1'') ever_changing 0 = Inr [spinner]
   \<and> capture_at ios (Some ''sim-1'') ever_changing 1 = Inr [button]
   \<and> hashUiTree [spinner] \<noteq> hashUiTree [button]
   \<and> fst (waitForStableUiTree ios (Some ''sim-1'') (Some 500) (Some 1000) ever_changing)
       = TimedOut [button]
   \<and> returned (fst (waitForStableUiTree ios (Some ''sim-1'') (Some 500) (Some 1000) ever_changing))
       = Inr [button]"
proof -
  let ?run = "waitForStableUiTree ios (Some ''sim-1'') (Some 500) (Some 1000) ever_changing"
  have n: "calls (snd ?run) = 2" "calls ever_changing = 0" by code_simp+
  have caps: "capture_at ios (Some ''sim-1'') ever_changing 0 = Inr [spinner]"
             "capture_at ios (Some ''sim-1'') ever_changing 1 = Inr [button]"
             "capture_at ios (Some ''sim-1'') ever_changing (Suc 0) = Inr [button]"
    by (simp_all add: capture_at_def ever_changing_def replay_def)
  have sig: "hashUiTree [spinner] \<noteq> hashUiTree [button]" by code_simp
  have below: "n < 2 \<Longrightarrow> n = 0 \<or> n = Suc 0" for n :: nat by arith
  have s: "\<forall>n. calls ever_changing \<le> n \<and> n < calls (snd ?run)
               \<longrightarrow> (\<exists>tree. capture_at ios (Some ''sim-1'') ever_changing n = Inr tree)"
    using caps by (auto simp: n dest!: below)
  have c: "\<forall>n. calls ever_changing \<le> n \<and> Suc n < calls (snd ?run) \<longrightarrow>
              hashUiTree (tree_at ios (Some ''sim-1'') ever_changing n)
                \<noteq> hashUiTree (tree_at ios (Some ''sim-1'') ever_changing (Suc n))"
    using caps sig by (auto simp: n tree_at_def)
  have run: "?run = (fst ?run, snd ?run)" by simp
  from soft_timeout_returns_last_capture [OF run s c] n caps sig
  show ?thesis by (simp add: tree_at_def)
qed

section \<open>Observation orchestrator: properties\<close>

lemma settle_frame:
  assumes "settle options w = (e, w1)"
  shows "adapter_getUiTree w1 = adapter_getUiTree w \<and> calls w \<le> calls w1"
proof (cases "stabilize options = Some True")
  case True
  obtain r w2 where run: "waitForStableUiTree (platform options) (deviceId options)
                (Some (coalesce (stabilizePollMs options) 500))
                (Some (coalesce (stabilizeTimeoutMs options) 10000)) w = (r, w2)"
    by (cases "waitForStableUiTree (platform options) (deviceId options)
                (Some (coalesce (stabilizePollMs options) 500))
                (Some (coalesce (stabilizeTimeoutMs options) 10000)) w")
  then have "adapter_getUiTree w2 = adapter_getUiTree w \<and> calls w \<le> calls w2"
    by (auto simp: waitForStableUiTree_def dest: stable_loop_frame)
  moreover from assms True run have "w1 = w2"
    by (cases r) (auto simp: settle_def)
  ultimately show ?thesis by simp
next
  case False
  with assms show ?thesis
    by (auto simp: settle_def delay_frame split: option.splits if_splits)
qed


lemma capture_in_parallel_tree:
  assumes "capture_in_parallel True wantScreenshot p d w1 = (Inr (tree, shot), w2)"
  shows "capture_at p d w1 (calls w1) = Inr (tree_at p d w1 (calls w1))
       \<and> tree = Some (tree_at p d w1 (calls w1)) \<and> calls w2 = Suc (calls w1)"
  using assms
  by (auto simp: capture_in_parallel_def getUiTree_def getScreenshot_def Let_def
        capture_at_def tree_at_def split: if_splits sum.splits prod.splits)

lemma performObservation_tree:
  assumes wants: "mode options = mode_ui_tree \<or> mode options = mode_both"
      and settled: "settle options w = (e, w1)"
      and obs: "performObservation options w = (Inr (Some res), w')"
  shows "calls w' = Suc (calls w1)
       \<and> capture_at (platform options) (deviceId options) w (calls w1)
           = Inr (tree_at (platform options) (deviceId options) w (calls w1))
       \<and> uiTree res = Some (filterUiElements
             (tree_at (platform options) (deviceId options) w (calls w1))
             (\<not> coalesce (filterUi options) True))"
proof -
  from wants have nn: "mode options \<noteq> mode_none" by auto
  from obs settled nn have e: "e = None"
    by (cases e) (auto simp: performObservation_def)
  from wants have wt: "(mode options = mode_ui_tree \<or> mode options = mode_both) = True" by simp
  from obs settled nn e obtain tree shot where
    cap: "capture_in_parallel True (mode options = mode_screenshot \<or> mode options = mode_both)
            (platform options) (deviceId options) w1 = (Inr (tree, shot), w')"
    and res: "res = \<lparr>uiTree = (case tree of None \<Rightarrow> None
                 | Some t \<Rightarrow> Some (filterUiElements t (\<not> coalesce (filterUi options) True))),
               screenshot = shot\<rparr>"
    by (auto simp: performObservation_def Let_def wt split: prod.splits sum.splits)
  from settle_frame [OF settled] have fr: "adapter_getUiTree w1 = adapter_getUiTree w" by simp
  then have same: "capture_at (platform options) (deviceId options) w1 n
                 = capture_at (platform options) (deviceId options) w n"
      "tree_at (platform options) (deviceId options) w1 n
                 = tree_at (platform options) (deviceId options) w n" for n
    by (simp_all add: capture_at_def tree_at_def)
  from capture_in_parallel_tree [OF cap] res show ?thesis
    by (simp add: same)
qed

text \<open>
  Claim C6. When the mode asks for a tree and the call returns a result, the \<open>uiTree\<close>
  field is the tree of the call's last capture passed through the filter with
  \<open>includeAll\<close> equal to the negation of \<open>filterUi\<close> (true when absent): \<open>filterUi = false\<close>
  gives \<open>includeAll = true\<close>, an absent or true \<open>filterUi\<close> gives \<open>includeAll = false\<close>.
\<close>

theorem filterUi_is_inverted:
  assumes wants: "mode options = mode_ui_tree \<or> mode options = mode_both"
      and obs: "performObservation options w = (Inr (Some res), w')"
  shows "capture_at (platform options) (deviceId options) w (calls w' - 1)
           = Inr (tree_at (platform options) (deviceId options) w (calls w' - 1))
       \<and> uiTree res = Some (filterUiElements
             (tree_at (platform options) (deviceId options) w (calls w' - 1))
             (\<not> coalesce (filterUi options) True))
       \<and> (filterUi options = Some False \<longrightarrow>
             uiTree res = Some (filterUiElements
                (tree_at (platform options) (deviceId options) w (calls w' - 1)) True))
       \<and> (filterUi options = None \<or> filterUi options = Some True \<longrightarrow>
             uiTree res = Some (filterUiElements
                (tree_at (platform options) (deviceId options) w (calls w' - 1)) False))"
proof -
  obtain e w1 where settled: "settle options w = (e, w1)" by (cases "settle options w")
  from performObservation_tree [OF wants settled obs]
  show ?thesis by (auto simp: coalesce_def)
qed

theorem filterUi_is_inverted_witness:
  "performObservation (after_tap\<lparr>stabilize := None, filterUi := Some False\<rparr>) settles_then_changes
     = (Inr (Some \<lparr>uiTree = Some [heading ''Loading''], screenshot = None\<rparr>),
        snd (performObservation (after_tap\<lparr>stabilize := None, filterUi := Some False\<rparr>)
               settles_then_changes))
   \<and> uiTree \<lparr>uiTree = Some [heading ''Loading''], screenshot = None\<rparr>
       = Some (filterUiElements (tree_at android None settles_then_changes 0) True)
   \<and> tree_at android None settles_then_changes 0 = [heading ''Loading'']
   \<and> fst (performObservation (after_tap\<lparr>filterUi := Some False\<rparr>) settles_then_changes)
       = Inr (Some \<lparr>uiTree = Some [heading ''Done'', container], screenshot = None\<rparr>)
   \<and> fst (performObservation after_tap settles_then_changes)
       = Inr (Some \<lparr>uiTree = Some [heading ''Done''], screenshot = None\<rparr>)"
proof -
  let ?o = "after_tap\<lparr>stabilize := None, filterUi := Some False\<rparr>"
  let ?r = "\<lparr>uiTree = Some [heading ''Loading''], screenshot = None\<rparr>"
  have "fst (performObservation ?o settles_then_changes) = Inr (Some ?r)"
    by code_simp
  then have obs: "performObservation ?o settles_then_changes
     = (Inr (Some ?r), snd (performObservation ?o settles_then_changes))"
    by (metis prod.collapse)
  have m: "mode ?o = mode_ui_tree \<or> mode ?o = mode_both"
    and f: "filterUi ?o = Some False"
    and pd: "platform ?o = android" "deviceId ?o = None"
    by (simp_all add: after_tap_def)
  have n: "calls (snd (performObservation ?o settles_then_changes)) - 1 = 0"
    by code_simp
  from filterUi_is_inverted [OF m obs] f
  have "uiTree ?r = Some (filterUiElements
          (tree_at (platform ?o) (deviceId ?o) settles_then_changes
             (calls (snd (performObservation ?o settles_then_changes)) - 1)) True)"
    by blast
  then have key: "uiTree ?r
       = Some (filterUiElements (tree_at android None settles_then_changes 0) True)"
    by (simp only: pd n)
  have t0: "tree_at android None settles_then_changes 0 = [heading ''Loading'']"
    by (simp add: tree_at_def capture_at_def settles_then_changes_def replay_def)
  have rest: "fst (performObservation (after_tap\<lparr>filterUi := Some False\<rparr>) settles_then_changes)
       = Inr (Some \<lparr>uiTree = Some [heading ''Done'', container], screenshot = None\<rparr>)"
     "fst (performObservation after_tap settles_then_changes)
       = Inr (Some \<lparr>uiTree = Some [heading ''Done''], screenshot = None\<rparr>)"
    by code_simp+
  from obs key t0 rest show ?thesis by (intro conjI)
qed



section \<open>Android adapter: properties\<close>








text \<open>\<open>parseInt\<close> reads back the number that a decimal representation denotes.\<close>

lemma digit_value_digit_char: "d < 10 \<Longrightarrow> digit_value (digit_char d) = int d"
proof -
  assume "d < 10"
  then have "d = 0 \<or> d = 1 \<or> d = 2 \<or> d = 3 \<or> d = 4 \<or> d = 5 \<or> d = 6
    \<or> d = 7 \<or> d = 8 \<or> d = 9" by arith
  then show ?thesis by (elim disjE) (simp_all add: digit_value_def digit_char_def)
qed

lemma is_digit_digit_char: "d < 10 \<Longrightarrow> is_digit (digit_char d)"
proof -
  assume "d < 10"
  then have "d = 0 \<or> d = 1 \<or> d = 2 \<or> d = 3 \<or> d = 4 \<or> d = 5 \<or> d = 6
    \<or> d = 7 \<or> d = 8 \<or> d = 9" by arith
  then show ?thesis by (elim disjE) (simp_all add: is_digit_def digit_char_def)
qed

lemma parseInt_snoc: "parseInt (ds @ [c]) = 10 * parseInt ds + digit_value c"
  by (simp add: parseInt_def)

lemma parseInt_show_nat: "show_nat n \<noteq> [] \<and> list_all is_digit (show_nat n) \<and> parseInt (show_nat n) = int n"
proof (induction n rule: show_nat.induct)
  case (1 n)
  show ?case
  proof (cases "n < 10")
    case True
    then show ?thesis
      by (simp add: show_nat.simps [of n] is_digit_digit_char digit_value_digit_char parseInt_def)
  next
    case False
    with 1 have ih: "show_nat (n div 10) \<noteq> []" "list_all is_digit (show_nat (n div 10))"
      "parseInt (show_nat (n div 10)) = int (n div 10)" by simp_all
    have m: "n mod 10 < 10" by simp
    from False ih show ?thesis
      by (simp add: show_nat.simps [of n] parseInt_snoc is_digit_digit_char [OF m]
            digit_value_digit_char [OF m] zdiv_int zmod_int)
  qed
qed

text \<open>The sample dump parses to its two on-screen elements.\<close>

lemma parsed_dump: "parseUiXml settings_dump = [settings_element, search_element]"
  by code_simp









section \<open>The text of an element on both adapters\<close>

lemma parse_node_text:
  "parse_node k attrs = Some el \<Longrightarrow>
     text el = (if coalesce (extractAttr attrs ''text'') [] \<noteq> []
                then coalesce (extractAttr attrs ''text'') []
                else coalesce (extractAttr attrs ''content-desc'') [])"
  by (auto simp: parse_node_def Let_def split: option.splits)

lemma collect_from_node:
  "el \<in> set (collect idx nodes) \<Longrightarrow> \<exists>attrs \<in> set nodes. \<exists>k. parse_node k attrs = Some el"
proof (induction nodes arbitrary: idx)
  case Nil
  then show ?case by simp
next
  case (Cons attrs rest)
  then show ?case by (cases "parse_node idx attrs") auto
qed

lemma idb_element_text:
  "text (idb_element k entry) =
     (case entry_title entry of
        Some t \<Rightarrow> t
      | None \<Rightarrow> (case entry_AXLabel entry of
                   Some l \<Rightarrow> l
                 | None \<Rightarrow> (case entry_label entry of Some l \<Rightarrow> l | None \<Rightarrow> [])))"
  by (simp add: idb_element_def Let_def coalesce_def or_else_def split: option.splits)

lemma idb_collect_from_entry:
  "el \<in> set (idb_collect JSON_parse idx lines) \<Longrightarrow>
     \<exists>line \<in> set lines. \<exists>entry k. JSON_parse line = Some entry \<and> el = idb_element k entry"
proof (induction lines arbitrary: idx)
  case Nil
  then show ?case by simp
next
  case (Cons line rest)
  then show ?case by (cases "JSON_parse line") auto
qed

text \<open>
  Claim C9 (as amended). Every element of an Android parse comes from a node and has as text
  the node's text attribute when that is not empty, otherwise its content-desc attribute (the
  empty string when absent). Every element of an iOS parse comes from a record and has as text
  the first of \<^verbatim>\<open>title\<close>, \<^verbatim>\<open>AXLabel\<close> and \<^verbatim>\<open>label\<close> that is present (neither missing nor
  \<^verbatim>\<open>null\<close>), the empty string when none is. The text is always a string.
\<close>

theorem text_fallback:
  "(\<forall>el \<in> set (parseUiXml xml). \<exists>attrs \<in> set (node_matches xml). \<exists>k.
       parse_node k attrs = Some el
       \<and> text el = (if coalesce (extractAttr attrs ''text'') [] \<noteq> []
                     then coalesce (extractAttr attrs ''text'') []
                     else coalesce (extractAttr attrs ''content-desc'') []))
   \<and> (\<forall>el \<in> set (parseIdbDescribeAll JSON_parse output).
         \<exists>line \<in> set (split_on (CHR 0x0A) (trim output)). \<exists>entry k.
           JSON_parse line = Some entry \<and> el = idb_element k entry
           \<and> text el = (case entry_title entry of
                          Some t \<Rightarrow> t
                        | None \<Rightarrow> (case entry_AXLabel entry of
                                     Some l \<Rightarrow> l
                                   | None \<Rightarrow> (case entry_label entry of
                                                Some l \<Rightarrow> l
                                              | None \<Rightarrow> []))))"
proof (intro conjI ballI)
  fix el assume "el \<in> set (parseUiXml xml)"
  then obtain attrs k where "attrs \<in> set (node_matches xml)" "parse_node k attrs = Some el"
    unfolding parseUiXml_def by (blast dest: collect_from_node)
  then show "\<exists>attrs \<in> set (node_matches xml). \<exists>k.
       parse_node k attrs = Some el
       \<and> text el = (if coalesce (extractAttr attrs ''text'') [] \<noteq> []
                     then coalesce (extractAttr attrs ''text'') []
                     else coalesce (extractAttr attrs ''content-desc'') [])"
    using parse_node_text by blast
next
  fix el assume "el \<in> set (parseIdbDescribeAll JSON_parse output)"
  then obtain line entry k where "line \<in> set (split_on (CHR 0x0A) (trim output))"
      "JSON_parse line = Some entry" "el = idb_element k entry"
    unfolding parseIdbDescribeAll_def by (blast dest: idb_collect_from_entry)
  then show "\<exists>line \<in> set (split_on (CHR 0x0A) (trim output)). \<exists>entry k.
           JSON_parse line = Some entry \<and> el = idb_element k entry
           \<and> text el = (case entry_title entry of
                          Some t \<Rightarrow> t
                        | None \<Rightarrow> (case entry_AXLabel entry of
                                     Some l \<Rightarrow> l
                                   | None \<Rightarrow> (case entry_label entry of
                                                Some l \<Rightarrow> l
                                              | None \<Rightarrow> [])))"
    using idb_element_text by blast
qed

theorem text_fallback_witness:
  "map text (parseUiXml settings_dump) = [''Settings'', ''Search'']
   \<and> extractAttr search_attrs ''text'' = Some []
   \<and> extractAttr search_attrs ''content-desc'' = Some ''Search''
   \<and> parseIdbDescribeAll read_records idb_output
       = [idb_element 0 (idb_button None (Some ''Back'')),
          idb_element 1 (idb_button (Some []) (Some ''Submit''))]
   \<and> text (idb_element 0 (idb_button None (Some ''Back''))) = ''Back''
   \<and> (\<exists>attrs \<in> set (node_matches settings_dump). \<exists>k.
         parse_node k attrs = Some search_element
         \<and> text search_element = (if coalesce (extractAttr attrs ''text'') [] \<noteq> []
                     then coalesce (extractAttr attrs ''text'') []
                     else coalesce (extractAttr attrs ''content-desc'') []))"
proof -
  have a: "map text (parseUiXml settings_dump) = [''Settings'', ''Search'']"
    by (simp add: parsed_dump settings_element_def search_element_def)
  have b: "extractAttr search_attrs ''text'' = Some []"
    "extractAttr search_attrs ''content-desc'' = Some ''Search''"
    by code_simp+
  have c: "parseIdbDescribeAll read_records idb_output
       = [idb_element 0 (idb_button None (Some ''Back'')),
          idb_element 1 (idb_button (Some []) (Some ''Submit''))]"
    by code_simp
  have d: "text (idb_element 0 (idb_button None (Some ''Back''))) = ''Back''"
    by code_simp
  have "search_element \<in> set (parseUiXml settings_dump)" by (simp add: parsed_dump)
  with text_fallback [of settings_dump read_records idb_output]
  have e: "\<exists>attrs \<in> set (node_matches settings_dump). \<exists>k.
         parse_node k attrs = Some search_element
         \<and> text search_element = (if coalesce (extractAttr attrs ''text'') [] \<noteq> []
                     then coalesce (extractAttr attrs ''text'') []
                     else coalesce (extractAttr attrs ''content-desc'') [])"
    by blast
  from a b c d e show ?thesis by (intro conjI)
qed

text \<open>
  Claim C9 as stated fails on the iOS adapter: \<^verbatim>\<open>??\<close> falls through on \<^verbatim>\<open>null\<close> and
  \<^verbatim>\<open>undefined\<close> only, so a record whose title is the empty string keeps the empty text
  although it has an accessibility label.
\<close>

theorem text_fallback_counterexample:
  "read_records (idb_line (jstr []) (jstr ''Submit'')) = Some (idb_button (Some []) (Some ''Submit''))
   \<and> entry_title (idb_button (Some []) (Some ''Submit'')) = Some []
   \<and> entry_AXLabel (idb_button (Some []) (Some ''Submit'')) = Some ''Submit''
   \<and> text (idb_element 1 (idb_button (Some []) (Some ''Submit''))) = []
   \<and> text (idb_element 1 (idb_button (Some []) (Some ''Submit''))) \<noteq> ''Submit''
   \<and> map text (parseIdbDescribeAll read_records idb_output) = [''Back'', []]"
  by code_simp

end
